theory Spec2Isabelle
  imports Main "HOL-Library.Multiset"
begin

section \<open>Habit streak state machine (src/app.js, HabitTracker)\<close>

text \<open>
  A habit document as the form submits it and the store keeps it. \<open>streak\<close> is a
  JavaScript number that only ever receives \<open>0\<close>, \<open>+ 1\<close> and \<open>- 1\<close>, hence an
  integer; \<open>lastChecked\<close> is the \<open>YYYY-MM-DD\<close> string. The store-assigned id is kept
  beside the fields (\<open>hid\<close>; \<open>id\<close> is taken in HOL).
\<close>

record habit_data =
  name :: string
  category :: string
  target :: int
  streak :: int
  lastChecked :: string
  checkedToday :: bool

record habit = habit_data +
  hid :: string

text \<open>The partial document \<open>toggleHabit\<close> hands to \<open>updateHabit\<close>.\<close>

record habit_update =
  newCheckedToday :: bool
  newStreak :: int
  newLastChecked :: string

text \<open>
  \<^verbatim>\<open>
  const toggleHabit = (habit) => {
      const isChecked = habit.checkedToday;
      let newStreak = habit.streak;
      let newCheckedToday = !isChecked;
      if (newCheckedToday) {
          newStreak = habit.lastChecked === today ? habit.streak : habit.streak + 1;
      } else {
          if (habit.lastChecked === today) {
               newStreak = habit.streak > 0 ? habit.streak - 1 : 0;
          }
      }
      updateHabit(habit.id, { checkedToday: newCheckedToday, streak: newStreak, lastChecked: today });
  };
  \<close>
  The model returns the two arguments of the \<open>updateHabit\<close> call.
\<close>

definition toggleHabit :: "string \<Rightarrow> habit \<Rightarrow> string \<times> habit_update" where
  "toggleHabit today h =
     (let isChecked = checkedToday h;
          newCheckedToday' = \<not> isChecked;
          newStreak' =
            (if newCheckedToday'
             then (if lastChecked h = today then streak h else streak h + 1)
             else (if lastChecked h = today
                   then (if streak h > 0 then streak h - 1 else 0)
                   else streak h))
      in (hid h, \<lparr>newCheckedToday = newCheckedToday', newStreak = newStreak',
                   newLastChecked = today\<rparr>))"

text \<open>
  \<open>updateDoc\<close> merges the named fields into the stored document and leaves the others;
  the next snapshot shows the merged document.
\<close>

definition updateDoc_habit :: "habit_update \<Rightarrow> habit \<Rightarrow> habit" where
  "updateDoc_habit u h =
     h\<lparr>checkedToday := newCheckedToday u, streak := newStreak u,
       lastChecked := newLastChecked u\<rparr>"

text \<open>One toggle as seen through the store: the habit after the write has been applied.\<close>

definition toggled :: "string \<Rightarrow> habit \<Rightarrow> habit" where
  "toggled today h = updateDoc_habit (snd (toggleHabit today h)) h"

text \<open>
  A sequence of toggles, each with the date the component computed for it; the trace
  keeps every intermediate habit, the starting one first.
\<close>

fun toggle_trace :: "string list \<Rightarrow> habit \<Rightarrow> habit list" where
  "toggle_trace [] h = [h]"
| "toggle_trace (d # ds) h = h # toggle_trace ds (toggled d h)"

subsection \<open>The date the component calls \<open>today\<close>\<close>

text \<open>
  \<^verbatim>\<open>const today = new Date().toISOString().split('T')[0];\<close>
  \<open>toISOString\<close> renders the instant (milliseconds since the epoch) in UTC. The date part
  is computed from the day number by the usual era arithmetic; years outside
  \<open>0..9999\<close> take the sign and six digits, as the standard prescribes.
\<close>

definition digit :: "int \<Rightarrow> char" where
  "digit n = ''0123456789'' ! nat (n mod 10)"

fun pad :: "nat \<Rightarrow> int \<Rightarrow> string" where
  "pad 0 n = []"
| "pad (Suc k) n = pad k (n div 10) @ [digit n]"

definition civil_from_days :: "int \<Rightarrow> int \<times> int \<times> int" where
  "civil_from_days days =
     (let z = days + 719468;
          era = z div 146097;
          doe = z - era * 146097;
          yoe = (doe - doe div 1460 + doe div 36524 - doe div 146096) div 365;
          doy = doe - (365 * yoe + yoe div 4 - yoe div 100);
          mp = (5 * doy + 2) div 153;
          d = doy - (153 * mp + 2) div 5 + 1;
          m = (if mp < 10 then mp + 3 else mp - 9);
          y = yoe + era * 400 + (if m \<le> 2 then 1 else 0)
      in (y, m, d))"

definition iso_year :: "int \<Rightarrow> string" where
  "iso_year y =
     (if 0 \<le> y \<and> y \<le> 9999 then pad 4 y
      else (if y < 0 then ''-'' else ''+'') @ pad 6 \<bar>y\<bar>)"

definition toISOString_date :: "int \<Rightarrow> string" where
  "toISOString_date ms =
     (case civil_from_days (ms div 86400000) of
        (y, m, d) \<Rightarrow> iso_year y @ ''-'' @ pad 2 m @ ''-'' @ pad 2 d)"

text \<open>
  The calendar date of the same instant on a wall clock that runs \<open>offset\<close> minutes ahead
  of UTC. The source never computes it; it is what the words "today's local date" denote.
\<close>

definition local_date_spec :: "int \<Rightarrow> int \<Rightarrow> string" where
  "local_date_spec offset ms = toISOString_date (ms + offset * 60000)"

text \<open>The constant \<open>today\<close> of a render of \<open>HabitTracker\<close> at the instant \<open>now\<close>.\<close>

definition todayAt :: "int \<Rightarrow> string" where
  "todayAt now = toISOString_date now"

text \<open>
  \<^verbatim>\<open>
  const handleSave = (data) => {
      if (editingHabit) {
          updateHabit(editingHabit.id, data);
      } else {
          addHabit({ ...data, streak: 0, lastChecked: today, checkedToday: false });
      }
      ...
  \<close>
  The result names the store call that is made: the edit flow updates the edited
  document with the form data as it is, the add flow adds the overridden copy.
\<close>

datatype habit_write = UpdateHabit string habit_data | AddHabit habit_data

definition handleSave :: "string \<Rightarrow> habit option \<Rightarrow> habit_data \<Rightarrow> habit_write" where
  "handleSave today editingHabit data =
     (case editingHabit of
        Some e \<Rightarrow> UpdateHabit (hid e) data
      | None \<Rightarrow> AddHabit (data\<lparr>streak := 0, lastChecked := today, checkedToday := False\<rparr>))"

text \<open>A habit as the module's \<open>initialHabit\<close> would look one day after it was stored.\<close>

definition habit0 :: habit where
  "habit0 = \<lparr>name = ''Minum 2 liter air'', category = ''Kesehatan'', target = 7, streak = 5,
              lastChecked = ''2026-11-02'', checkedToday = False, hid = ''h1''\<rparr>"

text \<open>Form data that carries its own streak, date and check mark.\<close>

definition form0 :: habit_data where
  "form0 = \<lparr>name = ''Baca 20 menit'', category = ''Pendidikan'', target = 7, streak = 9,
             lastChecked = ''2020-01-01'', checkedToday = True\<rparr>"

section \<open>Remote collection binding (src/app.js, useFirebase and useFirestoreCollection)\<close>

text \<open>
  The Firestore instance is an opaque handle or \<open>null\<close>; the user id is a string or
  \<open>null\<close>. \<open>!userId\<close> holds for \<open>null\<close> and for the empty string.
\<close>

type_synonym firestore = string

definition truthy :: "string option \<Rightarrow> bool" where
  "truthy s = (case s of None \<Rightarrow> False | Some v \<Rightarrow> v \<noteq> [])"

text \<open>A user id as a template literal renders it.\<close>

definition interpolate :: "string option \<Rightarrow> string" where
  "interpolate s = (case s of None \<Rightarrow> ''null'' | Some v \<Rightarrow> v)"

record firebase =
  db :: "firestore option"
  userId :: "string option"
  isAuthReady :: bool

text \<open>
  The states \<open>useFirebase\<close> can show. Its mount effect calls \<open>setDb\<close> before it registers
  the auth listener and starts a sign-in, so \<open>setUserId\<close> and \<open>setIsAuthReady(true)\<close>,
  which only those callbacks call, come after it. Nothing ever resets a field.
\<close>

inductive useFirebase_reach :: "firebase \<Rightarrow> bool" where
  mounted: "useFirebase_reach \<lparr>db = None, userId = None, isAuthReady = False\<rparr>"
| setDb: "useFirebase_reach s \<Longrightarrow> db s = None \<Longrightarrow> useFirebase_reach (s\<lparr>db := Some d\<rparr>)"
| setUserId: "useFirebase_reach s \<Longrightarrow> db s \<noteq> None \<Longrightarrow> useFirebase_reach (s\<lparr>userId := Some uid\<rparr>)"
| setIsAuthReady: "useFirebase_reach s \<Longrightarrow> db s \<noteq> None \<Longrightarrow> useFirebase_reach (s\<lparr>isAuthReady := True\<rparr>)"

text \<open>
  What the hook can touch outside React state: the console, the \<open>addDoc\<close> calls the store
  has received (path and item), and the \<open>onSnapshot\<close> registrations that are live at the
  store (handle, with the collection name and the path its callbacks closed over).
\<close>

datatype log_entry = ConsoleLog string | ConsoleError string

record 'd io =
  console :: "log_entry list"
  addDocs :: "(string \<times> 'd) list"
  listeners :: "(nat \<times> string \<times> string) list"
  nextHandle :: nat

text \<open>
  The React state of one \<open>useFirestoreCollection\<close> instance (\<open>data\<close>, \<open>loading\<close>,
  \<open>error\<close>) and the cleanup function React keeps for its effect, which unsubscribes the
  registration with that handle.
\<close>

record 'd mirror =
  items :: "'d list"
  loading :: bool
  lastError :: "string option"
  cleanup :: "nat option"

definition mirror0 :: "'d mirror" where
  "mirror0 = \<lparr>items = [], loading = True, lastError = None, cleanup = None\<rparr>"

definition io0 :: "'d io" where
  "io0 = \<lparr>console = [], addDocs = [], listeners = [], nextHandle = 0\<rparr>"

definition collection_path :: "string \<Rightarrow> string \<Rightarrow> string \<Rightarrow> string" where
  "collection_path appId uid collectionName =
     ''artifacts/'' @ appId @ ''/users/'' @ uid @ ''/'' @ collectionName"

text \<open>
  \<^verbatim>\<open>
  const addData = useCallback(async (item) => {
      if (!db || !userId) return;
      const path = `artifacts/${appId}/users/${userId}/${collectionName}`;
      await addDoc(collection(db, path), item);
  }, [db, userId, collectionName]);
  \<close>
  The promise resolves (\<open>Inr ()\<close>) or rejects with the store's error; \<open>accepted\<close> is the
  store's answer to the \<open>addDoc\<close> call, which is recorded either way.
\<close>

datatype store_error = StoreRejected

definition addData ::
  "string \<Rightarrow> firestore option \<Rightarrow> string option \<Rightarrow> string \<Rightarrow> bool \<Rightarrow> 'd \<Rightarrow>
   'd mirror \<times> 'd io \<Rightarrow> (store_error + unit) \<times> 'd mirror \<times> 'd io" where
  "addData appId db' userId' collectionName accepted item s =
     (if db' = None \<or> \<not> truthy userId' then (Inr (), s)
      else (let path = collection_path appId (interpolate userId') collectionName in
            (if accepted then Inr () else Inl StoreRejected,
             fst s,
             (snd s)\<lparr>addDocs := addDocs (snd s) @ [(path, item)]\<rparr>)))"

text \<open>
  The body of the subscription effect and the cleanup it returns:
  \<^verbatim>\<open>
  useEffect(() => {
      if (!db || !userId) { setLoading(false); return; }
      const path = `artifacts/${appId}/users/${userId}/${collectionName}`;
      ...
      const unsubscribe = onSnapshot(q, (snapshot) => {...}, (e) => {...});
      return () => unsubscribe();
  }, [db, userId, collectionName, sortField]);
  \<close>
\<close>

definition subscribe_effect ::
  "string \<Rightarrow> firestore option \<Rightarrow> string option \<Rightarrow> string \<Rightarrow> 'd mirror \<times> 'd io \<Rightarrow> 'd mirror \<times> 'd io" where
  "subscribe_effect appId db' userId' collectionName s =
     (if db' = None \<or> \<not> truthy userId'
      then ((fst s)\<lparr>loading := False, cleanup := None\<rparr>, snd s)
      else (let path = collection_path appId (interpolate userId') collectionName;
                h = nextHandle (snd s)
            in ((fst s)\<lparr>cleanup := Some h\<rparr>,
                (snd s)\<lparr>listeners := listeners (snd s) @ [(h, collectionName, path)],
                        nextHandle := h + 1\<rparr>)))"

definition run_cleanup :: "'d mirror \<times> 'd io \<Rightarrow> 'd mirror \<times> 'd io" where
  "run_cleanup s =
     (case cleanup (fst s) of
        None \<Rightarrow> s
      | Some h \<Rightarrow> ((fst s)\<lparr>cleanup := None\<rparr>,
                   (snd s)\<lparr>listeners := filter (\<lambda>l. fst l \<noteq> h) (listeners (snd s))\<rparr>))"

text \<open>
  The two callbacks handed to \<open>onSnapshot\<close>. The store calls them for a registration that
  is live and for no other. \<open>arrange\<close> is the client-side sort of the list (the identity
  when \<open>sortField\<close> is \<open>null\<close>, as in both uses in \<open>App\<close>).
\<close>

definition live :: "'d io \<Rightarrow> nat set" where
  "live i = fst ` set (listeners i)"

definition onNext :: "('d list \<Rightarrow> 'd list) \<Rightarrow> nat \<Rightarrow> 'd list \<Rightarrow> 'd mirror \<times> 'd io \<Rightarrow> 'd mirror \<times> 'd io" where
  "onNext arrange h docs s =
     (if h \<in> live (snd s)
      then ((fst s)\<lparr>items := arrange docs, loading := False, lastError := None\<rparr>, snd s)
      else s)"

definition onError :: "nat \<Rightarrow> string \<Rightarrow> 'd mirror \<times> 'd io \<Rightarrow> 'd mirror \<times> 'd io" where
  "onError h msg s =
     (case map_of (listeners (snd s)) h of
        None \<Rightarrow> s
      | Some (collectionName, path) \<Rightarrow>
          ((fst s)\<lparr>lastError := Some msg, loading := False\<rparr>,
           (snd s)\<lparr>console := console (snd s) @ [ConsoleError (''Error fetching '' @ collectionName @ '':'')]\<rparr>))"

text \<open>
  What can happen to a mounted hook. React runs the cleanup of the previous run of an
  effect before it runs the effect again for changed dependencies, and once more when the
  component unmounts.
\<close>

datatype 'd hook_event =
    Rebind "firestore option" "string option" string
  | Unmount
  | Snapshot nat "'d list"
  | SnapshotError nat string

fun hook_step :: "string \<Rightarrow> 'd hook_event \<Rightarrow> 'd mirror \<times> 'd io \<Rightarrow> 'd mirror \<times> 'd io" where
  "hook_step appId (Rebind db' userId' collectionName) s =
     subscribe_effect appId db' userId' collectionName (run_cleanup s)"
| "hook_step appId Unmount s = run_cleanup s"
| "hook_step appId (Snapshot h docs) s = onNext (\<lambda>l. l) h docs s"
| "hook_step appId (SnapshotError h msg) s = onError h msg s"

definition hook_mount ::
  "string \<Rightarrow> firestore option \<Rightarrow> string option \<Rightarrow> string \<Rightarrow> 'd mirror \<times> 'd io" where
  "hook_mount appId db' userId' collectionName =
     subscribe_effect appId db' userId' collectionName (mirror0, io0)"

definition hook_run :: "string \<Rightarrow> 'd hook_event list \<Rightarrow> 'd mirror \<times> 'd io \<Rightarrow> 'd mirror \<times> 'd io" where
  "hook_run appId es s = fold (hook_step appId) es s"

subsection \<open>Seeding (src/app.js, the effect in \<open>App\<close>)\<close>

text \<open>
  \<^verbatim>\<open>
  useEffect(() => {
      if (isAuthReady && !tasksLoading && tasks.length === 0 && userId) {
          console.log("Adding initial mock task...");
          addTask(initialTask);
      }
      if (isAuthReady && !habitsLoading && habits.length === 0 && userId) {
          console.log("Adding initial mock habit...");
          addHabit(initialHabit);
      }
  }, [...]);
  \<close>
  One run of the effect. \<open>addTask\<close> and \<open>addHabit\<close> are the \<open>addData\<close> of the two hook
  instances; their promises are dropped. The two default documents are module constants
  and are passed in.
\<close>

definition seedingEffect ::
  "string \<Rightarrow> 'd \<Rightarrow> 'd \<Rightarrow> firebase \<Rightarrow> 'd mirror \<Rightarrow> 'd mirror \<Rightarrow> bool \<Rightarrow> 'd io \<Rightarrow> 'd io" where
  "seedingEffect appId initialTask initialHabit fb tasksM habitsM accepted i =
     (let i1 =
        (if isAuthReady fb \<and> \<not> loading tasksM \<and> length (items tasksM) = 0 \<and> truthy (userId fb)
         then snd (snd (addData appId (db fb) (userId fb) ''tasks'' accepted initialTask
                  (tasksM, i\<lparr>console := console i @ [ConsoleLog ''Adding initial mock task...'']\<rparr>)))
         else i)
      in
        (if isAuthReady fb \<and> \<not> loading habitsM \<and> length (items habitsM) = 0 \<and> truthy (userId fb)
         then snd (snd (addData appId (db fb) (userId fb) ''habits'' accepted initialHabit
                  (habitsM, i1\<lparr>console := console i1 @ [ConsoleLog ''Adding initial mock habit...'']\<rparr>)))
         else i1))"

text \<open>The items of the \<open>addDoc\<close> calls made between two states of the store, for one path.\<close>

definition inserted :: "string \<Rightarrow> 'd io \<Rightarrow> 'd io \<Rightarrow> 'd list" where
  "inserted path i i' =
     map snd (filter (\<lambda>w. fst w = path) (drop (length (addDocs i)) (addDocs i')))"

text \<open>A session that is ready, with a database and a user.\<close>

definition fb_ready :: firebase where
  "fb_ready = \<lparr>db = Some ''db'', userId = Some ''u1'', isAuthReady = True\<rparr>"

text \<open>
  The start of a session as \<open>App\<close> goes through it. Both hooks are mounted with the
  initial React state of \<open>useFirebase\<close> (\<open>db\<close> and \<open>userId\<close> are \<open>null\<close>), and are rebound
  when the database and the user are there; no snapshot has arrived yet.
\<close>

definition awaiting_snapshot :: "string \<Rightarrow> string mirror \<times> string io" where
  "awaiting_snapshot collectionName =
     hook_run ''app'' [Rebind (Some ''db'') (Some ''u1'') collectionName]
       (hook_mount ''app'' None None collectionName)"

text \<open>
  The run of the seeding effect when the session becomes ready, and its next run, after
  the first snapshot of the tasks has shown a task the user had stored before (and the
  default one just added), while the habits still wait for theirs.
\<close>

definition first_run :: "string io" where
  "first_run =
     seedingEffect ''app'' ''initialTask'' ''initialHabit'' fb_ready
       (fst (awaiting_snapshot ''tasks'')) (fst (awaiting_snapshot ''habits'')) True io0"

definition second_run :: "string io" where
  "second_run =
     seedingEffect ''app'' ''initialTask'' ''initialHabit'' fb_ready
       (fst (hook_step ''app'' (Snapshot 0 [''Tugas lama'', ''initialTask''])
               (awaiting_snapshot ''tasks'')))
       (fst (awaiting_snapshot ''habits'')) True first_run"

subsection \<open>Invariants of the hook's run\<close>

text \<open>
  The hook holds the cleanup of exactly the registrations that are live, and every handle
  in use is below the next one the store will hand out.
\<close>

definition hook_inv :: "'d mirror \<times> 'd io \<Rightarrow> bool" where
  "hook_inv s \<longleftrightarrow>
     map fst (listeners (snd s)) = (case cleanup (fst s) of None \<Rightarrow> [] | Some h \<Rightarrow> [h]) \<and>
     (\<forall>h \<in> live (snd s). h < nextHandle (snd s))"

text \<open>A handle that was handed out and is no longer registered.\<close>

definition retired :: "nat \<Rightarrow> 'd mirror \<times> 'd io \<Rightarrow> bool" where
  "retired h s \<longleftrightarrow> h \<notin> live (snd s) \<and> h < nextHandle (snd s)"

section \<open>Derived view state\<close>

subsection \<open>\<open>Array.prototype.sort\<close>\<close>

text \<open>
  A comparator returns a number whose sign decides the order. The engine's sort is a
  parameter of the derived lists. What is asked of it is what every comparison sort
  delivers whether or not the comparator is consistent: the result is a rearrangement
  of the input, and each element stands before its right neighbour because a call of the
  comparator on the two said so (or said they are equal).
\<close>

type_synonym 'a comparator = "'a \<Rightarrow> 'a \<Rightarrow> int"

definition conforming_sort :: "('a comparator \<Rightarrow> 'a list \<Rightarrow> 'a list) \<Rightarrow> bool" where
  "conforming_sort srt \<longleftrightarrow>
     (\<forall>cmp xs. mset (srt cmp xs) = mset xs \<and>
        successively (\<lambda>a b. cmp a b \<le> 0 \<or> 0 \<le> cmp b a) (srt cmp xs))"

text \<open>
  A reference engine: stable insertion sort, the result the standard prescribes for a
  consistent comparator.
\<close>

fun insert_by :: "'a comparator \<Rightarrow> 'a \<Rightarrow> 'a list \<Rightarrow> 'a list" where
  "insert_by cmp x [] = [x]"
| "insert_by cmp x (y # ys) = (if cmp x y \<le> 0 then x # y # ys else y # insert_by cmp x ys)"

fun insertion_sort :: "'a comparator \<Rightarrow> 'a list \<Rightarrow> 'a list" where
  "insertion_sort cmp [] = []"
| "insertion_sort cmp (x # xs) = insert_by cmp x (insertion_sort cmp xs)"

subsection \<open>Pending and completed tasks (src/unnamed/part_000, TaskManagerView)\<close>

text \<open>
  A task as the snapshot listener of this variant builds it; \<open>createdAt\<close> is always a
  \<open>Date\<close> there (the stored timestamp, or the current time), so \<open>createdAt || 0\<close> is that
  date, and the difference of two dates is the difference of their millisecond values.
\<close>

record vtask =
  vid :: string
  title :: string
  vcompleted :: bool
  createdAt :: int
  vcategory :: string

text \<open>\<^verbatim>\<open>(a, b) => (b.createdAt || 0) - (a.createdAt || 0)\<close>\<close>

definition byCreatedAtDesc :: "vtask comparator" where
  "byCreatedAtDesc a b = createdAt b - createdAt a"

text \<open>
  \<^verbatim>\<open>
  const pendingTasks = tasks.filter(t => !t.completed).sort((a, b) => (b.createdAt || 0) - (a.createdAt || 0));
  const completedTasks = tasks.filter(t => t.completed).sort((a, b) => (b.createdAt || 0) - (a.createdAt || 0));
  \<close>
\<close>

definition pendingTasks :: "(vtask comparator \<Rightarrow> vtask list \<Rightarrow> vtask list) \<Rightarrow> vtask list \<Rightarrow> vtask list" where
  "pendingTasks srt tasks = srt byCreatedAtDesc (filter (\<lambda>t. \<not> vcompleted t) tasks)"

definition completedTasks :: "(vtask comparator \<Rightarrow> vtask list \<Rightarrow> vtask list) \<Rightarrow> vtask list \<Rightarrow> vtask list" where
  "completedTasks srt tasks = srt byCreatedAtDesc (filter (\<lambda>t. vcompleted t) tasks)"

subsection \<open>Top priorities (src/app.js, Dashboard)\<close>

record task =
  tid :: string
  tname :: string
  tcategory :: string
  deadline :: string
  priority :: string
  subtasks :: "(string \<times> string \<times> bool) list"
  completed :: bool

text \<open>\<^verbatim>\<open>(a, b) => a.priority === 'Penting - Mendesak' ? -1 : 1\<close>\<close>

definition urgentFirst :: "task comparator" where
  "urgentFirst a b = (if priority a = ''Penting - Mendesak'' then - 1 else 1)"

text \<open>
  \<^verbatim>\<open>
  const top3Priorities = tasks
      .filter(t => !t.completed)
      .sort((a, b) => a.priority === 'Penting - Mendesak' ? -1 : 1) // Simple sort
      .slice(0, 3);
  \<close>
\<close>

definition top3Priorities :: "(task comparator \<Rightarrow> task list \<Rightarrow> task list) \<Rightarrow> task list \<Rightarrow> task list" where
  "top3Priorities srt tasks = take 3 (srt urgentFirst (filter (\<lambda>t. \<not> completed t) tasks))"

definition urgent :: "task \<Rightarrow> bool" where
  "urgent t \<longleftrightarrow> priority t = ''Penting - Mendesak''"

text \<open>Sample tasks for running the definitions.\<close>

definition vt :: "string \<Rightarrow> bool \<Rightarrow> int \<Rightarrow> vtask" where
  "vt i c t = \<lparr>vid = i, title = ''Buy milk'', vcompleted = c, createdAt = t, vcategory = ''Uncategorized''\<rparr>"

definition tk :: "string \<Rightarrow> string \<Rightarrow> bool \<Rightarrow> task" where
  "tk i p c = \<lparr>tid = i, tname = ''Tugas'', tcategory = ''Kuliah'', deadline = ''2026-11-10'',
               priority = p, subtasks = [], completed = c\<rparr>"

section \<open>Reflection save flow (src/unnamed/part_000, handleSaveReflection)\<close>

text \<open>
  A stored document is a finite map from field names to values; the store maps document
  paths to documents. \<open>setDoc(ref, payload, { merge: true })\<close> creates the document from
  the payload or overwrites exactly the payload's fields.
\<close>

datatype fval = FString string | FTimestamp int | FBool bool | FNumber int

type_synonym document = "string \<rightharpoonup> fval"

type_synonym docstore = "string \<rightharpoonup> document"

definition setDoc_merge :: "string \<Rightarrow> document \<Rightarrow> docstore \<Rightarrow> docstore" where
  "setDoc_merge path payload st =
     st(path \<mapsto> (case st path of None \<Rightarrow> payload | Some d \<Rightarrow> d ++ payload))"

definition field :: "docstore \<Rightarrow> string \<Rightarrow> string \<Rightarrow> fval option" where
  "field st path f = (case st path of None \<Rightarrow> None | Some d \<Rightarrow> d f)"

record app_state =
  stored :: docstore
  uiError :: "string option"
  appConsole :: "log_entry list"

definition reflection_path :: "string \<Rightarrow> string \<Rightarrow> string \<Rightarrow> string" where
  "reflection_path appId uid day = collection_path appId uid ''reflections'' @ ''/'' @ day"

text \<open>
  \<^verbatim>\<open>
  const handleSaveReflection = async (content) => {
      const reflectionsRef = getUserCollectionRef(userId, 'reflections');
      if (!userId || !content || !reflectionsRef) return;
      const today = new Date().toISOString().split('T')[0];
      try {
          await setDoc(doc(reflectionsRef, today), { content, updatedAt: new Date() }, { merge: true });
      } catch (e) {
          console.error("Error saving reflection:", e);
          setError("Gagal menyimpan refleksi.");
      }
  };
  \<close>
  \<open>getUserCollectionRef\<close> is \<open>undefined\<close> without a database instance. In this variant
  \<open>userId\<close> is always a string. The clock is read twice (\<open>now\<close> for the document key,
  \<open>stamp\<close> for \<open>updatedAt\<close>); \<open>accepted\<close> is the store's answer.
\<close>

definition handleSaveReflection ::
  "string \<Rightarrow> firestore option \<Rightarrow> string \<Rightarrow> int \<Rightarrow> int \<Rightarrow> bool \<Rightarrow> string \<Rightarrow> app_state \<Rightarrow> app_state" where
  "handleSaveReflection appId dbInstance uid now stamp accepted content st =
     (if uid = [] \<or> content = [] \<or> dbInstance = None then st
      else (let today = toISOString_date now in
            if accepted
            then st\<lparr>stored := setDoc_merge (reflection_path appId uid today)
                     [''content'' \<mapsto> FString content, ''updatedAt'' \<mapsto> FTimestamp stamp] (stored st)\<rparr>
            else st\<lparr>uiError := Some ''Gagal menyimpan refleksi.'',
                    appConsole := appConsole st @ [ConsoleError ''Error saving reflection:'']\<rparr>))"

text \<open>A day's document that already carries a field the save does not know.\<close>

definition state0 :: app_state where
  "state0 = \<lparr>stored = [reflection_path ''app'' ''u1'' ''2026-11-02'' \<mapsto>
                       [''mood'' \<mapsto> FString ''ok'', ''content'' \<mapsto> FString ''old'']],
             uiError = None, appConsole = []\<rparr>"

section \<open>Properties of the habit streak state machine\<close>

lemma toggled_simps:
  "checkedToday (toggled today h) = (\<not> checkedToday h)"
  "lastChecked (toggled today h) = today"
  "streak (toggled today h) =
     (if \<not> checkedToday h
      then (if lastChecked h = today then streak h else streak h + 1)
      else (if lastChecked h = today then (if streak h > 0 then streak h - 1 else 0) else streak h))"
  by (simp_all add: toggled_def toggleHabit_def updateDoc_habit_def Let_def)

lemma toggled_frame:
  "name (toggled today h) = name h"
  "category (toggled today h) = category h"
  "target (toggled today h) = target h"
  "hid (toggled today h) = hid h"
  by (simp_all add: toggled_def toggleHabit_def updateDoc_habit_def Let_def)

text \<open>
  C1. Toggling an unchecked habit checks it, leaves the streak alone when \<open>lastChecked\<close>
  is already today and adds one otherwise; toggling a checked habit unchecks it, takes one
  off the streak (not below 0) when \<open>lastChecked\<close> is today and leaves it alone otherwise.
  In both directions \<open>lastChecked\<close> becomes today.
\<close>

theorem toggleHabit_transition:
  "(\<not> checkedToday h \<longrightarrow>
      checkedToday (toggled today h) \<and>
      streak (toggled today h) = (if lastChecked h = today then streak h else streak h + 1) \<and>
      lastChecked (toggled today h) = today) \<and>
   (checkedToday h \<longrightarrow>
      \<not> checkedToday (toggled today h) \<and>
      streak (toggled today h) = (if lastChecked h = today then max 0 (streak h - 1) else streak h) \<and>
      lastChecked (toggled today h) = today)"
  by (simp add: toggled_simps max_def)

theorem toggleHabit_transition_witness:
  "\<not> checkedToday habit0 \<and>
   checkedToday (toggled ''2026-11-03'' habit0) \<and>
   streak (toggled ''2026-11-03'' habit0) = 6 \<and>
   lastChecked (toggled ''2026-11-03'' habit0) = ''2026-11-03'' \<and>
   \<not> checkedToday (toggled ''2026-11-03'' (toggled ''2026-11-03'' habit0)) \<and>
   streak (toggled ''2026-11-03'' (toggled ''2026-11-03'' habit0)) = 5"
  using toggleHabit_transition [of habit0 "''2026-11-03''"]
        toggleHabit_transition [of "toggled ''2026-11-03'' habit0" "''2026-11-03''"]
  by (simp add: habit0_def)

text \<open>
  What the two guards do together. For a habit that is checked and whose \<open>lastChecked\<close>
  is today, unchecking takes one off the streak and sets \<open>lastChecked\<close> to today again, so
  the re-check finds \<open>lastChecked\<close> equal to today and adds nothing back: the streak ends
  one lower (not below 0), and is back at its first value only when that value is 0.
\<close>

lemma uncheck_recheck_streak:
  assumes "checkedToday h" and "lastChecked h = today"
  shows "streak (toggled today (toggled today h)) = max 0 (streak h - 1) \<and>
         checkedToday (toggled today (toggled today h)) \<and>
         lastChecked (toggled today (toggled today h)) = today \<and>
         (streak (toggled today (toggled today h)) = streak h \<longleftrightarrow> streak h = 0)"
  using assms by (auto simp add: toggled_simps max_def)

text \<open>
  C2. A habit that is checked, with \<open>lastChecked\<close> today, should come back from checked,
  unchecked, checked on that day with the streak it had. The code does not do that: from
  streak 5 the round trip ends at 4, and a third toggle leaves 3. The comment in the
  uncheck branch says the decrement is for a streak "added today"; the re-check never adds
  it back, so every further uncheck of the same day takes another one off: seven toggles
  on one day take a habit that starts unchecked at 5 through 6, 5, 5, 4, 4, 3, 3.
\<close>

theorem round_trip_streak_lost:
  "checkedToday (habit0\<lparr>checkedToday := True, lastChecked := ''2026-11-03''\<rparr>) \<and>
   lastChecked (habit0\<lparr>checkedToday := True, lastChecked := ''2026-11-03''\<rparr>) = ''2026-11-03'' \<and>
   streak (habit0\<lparr>checkedToday := True, lastChecked := ''2026-11-03''\<rparr>) = 5 \<and>
   checkedToday (toggled ''2026-11-03'' (toggled ''2026-11-03''
      (habit0\<lparr>checkedToday := True, lastChecked := ''2026-11-03''\<rparr>))) \<and>
   streak (toggled ''2026-11-03'' (toggled ''2026-11-03''
      (habit0\<lparr>checkedToday := True, lastChecked := ''2026-11-03''\<rparr>))) = 4 \<and>
   streak (toggled ''2026-11-03'' (toggled ''2026-11-03'' (toggled ''2026-11-03''
      (habit0\<lparr>checkedToday := True, lastChecked := ''2026-11-03''\<rparr>)))) = 3 \<and>
   map streak (toggle_trace
      [''2026-11-03'', ''2026-11-03'', ''2026-11-03'', ''2026-11-03'', ''2026-11-03'',
       ''2026-11-03'', ''2026-11-03''] habit0) = [5, 6, 5, 5, 4, 4, 3, 3]"
  by (simp add: habit0_def toggled_simps)

lemma toggled_nonneg: "0 \<le> streak h \<Longrightarrow> 0 \<le> streak (toggled d h)"
  by (simp add: toggled_simps)

lemma toggle_trace_nonempty: "toggle_trace ds h \<noteq> []"
  by (cases ds) simp_all

lemma toggle_trace_last: "last (toggle_trace ds h) = fold toggled ds h"
  by (induction ds arbitrary: h) (simp_all add: toggle_trace_nonempty)

text \<open>
  C3. Starting from a streak that is not negative, the streak is not negative after any
  number of toggles, whatever the date of each: every habit in the trace has a streak of
  at least 0.
\<close>

theorem streak_never_negative:
  assumes "0 \<le> streak h"
  shows "\<forall>h' \<in> set (toggle_trace ds h). 0 \<le> streak h'"
  using assms
proof (induction ds arbitrary: h)
  case Nil
  then show ?case by simp
next
  case (Cons d ds)
  from Cons.prems have "0 \<le> streak (toggled d h)" by (rule toggled_nonneg)
  then have "\<forall>h' \<in> set (toggle_trace ds (toggled d h)). 0 \<le> streak h'" by (rule Cons.IH)
  with Cons.prems show ?case by simp
qed

theorem streak_never_negative_witness:
  "0 \<le> streak (habit0\<lparr>streak := 1, checkedToday := True\<rparr>) \<and>
   map streak (toggle_trace [''2026-11-02'', ''2026-11-02'', ''2026-11-02'', ''2026-11-03'']
                 (habit0\<lparr>streak := 1, checkedToday := True\<rparr>)) = [1, 0, 0, 0, 1] \<and>
   0 \<le> streak (last (toggle_trace [''2026-11-02'', ''2026-11-02'', ''2026-11-02'', ''2026-11-03'']
                 (habit0\<lparr>streak := 1, checkedToday := True\<rparr>)))"
  using streak_never_negative [of "habit0\<lparr>streak := 1, checkedToday := True\<rparr>"
          "[''2026-11-02'', ''2026-11-02'', ''2026-11-02'', ''2026-11-03'']"]
  by (simp add: habit0_def toggled_simps)

text \<open>
  C10, amended. In the add flow the document handed to the store has streak 0, is not
  checked, and has \<open>lastChecked\<close> equal to the date part of \<open>toISOString()\<close> at that
  instant, which is the calendar date in UTC, whatever the form submitted for the three
  fields; the other fields are the form's.
\<close>

theorem add_flow_record:
  "\<exists>d. handleSave (todayAt now) None data = AddHabit d \<and> streak d = 0 \<and> \<not> checkedToday d \<and>
        lastChecked d = toISOString_date now \<and>
        name d = name data \<and> category d = category data \<and> target d = target data"
  by (simp add: handleSave_def todayAt_def)

lemma utc_date_example: "toISOString_date 1793660400000 = ''2026-11-02''"
  by code_simp

lemma local_date_example: "local_date_spec 420 1793660400000 = ''2026-11-03''"
  by code_simp

theorem add_flow_record_witness:
  "\<exists>d. handleSave (todayAt 1793660400000) None form0 = AddHabit d \<and> streak d = 0 \<and> \<not> checkedToday d \<and>
        lastChecked d = ''2026-11-02'' \<and> name d = ''Baca 20 menit''"
proof -
  from add_flow_record [of 1793660400000 form0]
  obtain d where d: "handleSave (todayAt 1793660400000) None form0 = AddHabit d" "streak d = 0"
    "\<not> checkedToday d" "lastChecked d = toISOString_date 1793660400000" "name d = name form0"
    by blast
  have "name form0 = ''Baca 20 menit''" by (simp add: form0_def)
  with d utc_date_example show ?thesis by auto
qed

text \<open>
  C10, as stated, fails on the local date: at 23:00 UTC on 2 November 2026 a clock seven
  hours ahead of UTC shows 3 November, and the new habit is stamped 2 November.
\<close>

theorem add_flow_local_date_counterexample:
  "handleSave (todayAt 1793660400000) None form0 =
     AddHabit (form0\<lparr>streak := 0, lastChecked := ''2026-11-02'', checkedToday := False\<rparr>) \<and>
   local_date_spec 420 1793660400000 = ''2026-11-03''"
  using utc_date_example local_date_example by (simp add: handleSave_def todayAt_def)

section \<open>Properties of the collection binding\<close>

text \<open>
  C8, amended. When the database handle or the user id is absent, \<open>addData\<close> resolves
  without an error and changes nothing: no line goes to the console, no \<open>addDoc\<close> call
  is made, and the mirror is as it was.
\<close>

theorem addData_absent_silent:
  assumes "db' = None \<or> \<not> truthy userId'"
  shows "fst (addData appId db' userId' c accepted item s) = Inr () \<and>
         console (snd (snd (addData appId db' userId' c accepted item s))) = console (snd s) \<and>
         addDocs (snd (snd (addData appId db' userId' c accepted item s))) = addDocs (snd s) \<and>
         items (fst (snd (addData appId db' userId' c accepted item s))) = items (fst s) \<and>
         snd (addData appId db' userId' c accepted item s) = s"
  using assms by (auto simp add: addData_def)

theorem addData_absent_silent_witness:
  "fst (addData ''app'' None (Some ''u1'') ''tasks'' True (0::nat) (mirror0, io0)) = Inr () \<and>
   snd (addData ''app'' None (Some ''u1'') ''tasks'' True (0::nat) (mirror0, io0)) = (mirror0, io0)"
  using addData_absent_silent [of None "Some ''u1''" "''app''" "''tasks''" True "0::nat" "(mirror0, io0)"]
  by simp

text \<open>
  C8, as stated, fails on the error log: with the database handle absent, or with the user
  id absent, the console is still empty after the call.
\<close>

theorem addData_absent_no_log_counterexample:
  "console (snd (snd (addData ''app'' None (Some ''u1'') ''tasks'' True (0::nat) (mirror0, io0)))) = [] \<and>
   console (snd (snd (addData ''app'' (Some ''db'') None ''tasks'' True (0::nat) (mirror0, io0)))) = []"
  by (simp add: addData_def io0_def)

lemma run_cleanup_clears:
  "hook_inv s \<Longrightarrow> listeners (snd (run_cleanup s)) = [] \<and> cleanup (fst (run_cleanup s)) = None
     \<and> nextHandle (snd (run_cleanup s)) = nextHandle (snd s)"
  by (cases s) (auto simp add: hook_inv_def run_cleanup_def split: option.splits)

lemma subscribe_effect_inv:
  "listeners (snd s) = [] \<Longrightarrow> hook_inv (subscribe_effect appId d u c s)"
  by (cases s) (auto simp add: hook_inv_def subscribe_effect_def live_def Let_def)

lemma hook_mount_inv: "hook_inv (hook_mount appId d u c)"
  unfolding hook_mount_def by (rule subscribe_effect_inv) (simp add: io0_def)

lemma hook_step_inv: "hook_inv s \<Longrightarrow> hook_inv (hook_step appId e s)"
proof (cases e)
  case (Rebind d u c)
  assume "hook_inv s"
  then have "listeners (snd (run_cleanup s)) = []" by (simp add: run_cleanup_clears)
  then show ?thesis using Rebind by (simp add: subscribe_effect_inv)
next
  case Unmount
  assume "hook_inv s"
  then show ?thesis using Unmount run_cleanup_clears [of s]
    by (simp add: hook_inv_def live_def)
next
  case (Snapshot h docs)
  assume "hook_inv s"
  then show ?thesis using Snapshot by (simp add: hook_inv_def onNext_def live_def)
next
  case (SnapshotError h msg)
  assume "hook_inv s"
  then show ?thesis using SnapshotError
    by (simp add: hook_inv_def onError_def live_def split: option.splits prod.splits)
qed

lemma hook_run_inv: "hook_inv s \<Longrightarrow> hook_inv (hook_run appId es s)"
  unfolding hook_run_def by (induction es arbitrary: s) (simp_all add: hook_step_inv)

lemma hook_inv_at_most_one: "hook_inv s \<Longrightarrow> length (listeners (snd s)) \<le> 1"
proof -
  assume "hook_inv s"
  then have "length (map fst (listeners (snd s))) \<le> 1"
    by (simp add: hook_inv_def split: option.splits)
  then show ?thesis by simp
qed

lemma hook_step_retired: "retired h s \<Longrightarrow> retired h (hook_step appId e s)"
  by (cases e; cases s)
     (auto simp add: retired_def run_cleanup_def subscribe_effect_def onNext_def onError_def
        live_def Let_def split: option.splits prod.splits)

lemma hook_run_retired: "retired h s \<Longrightarrow> retired h (hook_run appId es s)"
  unfolding hook_run_def by (induction es arbitrary: s) (simp_all add: hook_step_retired)

lemma rebind_retires:
  assumes "hook_inv s" and "h \<in> live (snd s)"
  shows "retired h (hook_step appId (Rebind d u c) s)"
proof -
  from assms have lt: "h < nextHandle (snd s)" by (simp add: hook_inv_def)
  from assms(1) have "listeners (snd (run_cleanup s)) = []"
    and "nextHandle (snd (run_cleanup s)) = nextHandle (snd s)"
    by (simp_all add: run_cleanup_clears)
  with lt show ?thesis
    by (cases "run_cleanup s")
       (auto simp add: retired_def subscribe_effect_def live_def Let_def)
qed

lemma unmount_retires:
  assumes "hook_inv s" and "h \<in> live (snd s)"
  shows "retired h (hook_step appId Unmount s)"
  using assms run_cleanup_clears [of s] by (auto simp add: retired_def hook_inv_def live_def)

lemma retired_snapshot_noop:
  "retired h s \<Longrightarrow> hook_step appId (Snapshot h docs) s = s \<and> hook_step appId (SnapshotError h msg) s = s"
proof -
  assume "retired h s"
  then have "h \<notin> fst ` set (listeners (snd s))" by (simp add: retired_def live_def)
  then have m: "map_of (listeners (snd s)) h = None" and l: "h \<notin> live (snd s)"
    by (simp_all add: map_of_eq_None_iff live_def)
  have "onError h msg s = s" unfolding onError_def m by simp
  moreover have "onNext (\<lambda>l. l) h docs s = s" using l by (simp add: onNext_def)
  ultimately show ?thesis by simp
qed

text \<open>
  C9. At any point of a mounted hook's life at most one registration is live. A rebind or
  an unmount runs the cleanup first, which leaves none, before a new one is made; a
  registration that was live before is never live again, whatever follows, and a snapshot
  or an error addressed to it changes nothing.
\<close>

theorem rebind_teardown:
  fixes es es' :: "'d hook_event list" and appId c c' :: string
    and d d' :: "firestore option" and u u' :: "string option" and e :: "'d hook_event"
  defines "s \<equiv> hook_run appId es (hook_mount appId d u c)"
  assumes "e = Rebind d' u' c' \<or> e = Unmount"
  defines "s' \<equiv> hook_run appId es' (hook_step appId e s)"
  shows "length (listeners (snd s)) \<le> 1 \<and>
         listeners (snd (run_cleanup s)) = [] \<and>
         length (listeners (snd s')) \<le> 1 \<and>
         (\<forall>h \<in> live (snd s). h \<notin> live (snd s') \<and>
             hook_step appId (Snapshot h docs) s' = s' \<and>
             hook_step appId (SnapshotError h msg) s' = s')"
proof -
  have inv: "hook_inv s" unfolding s_def by (rule hook_run_inv) (rule hook_mount_inv)
  then have inv': "hook_inv s'" unfolding s'_def by (intro hook_run_inv hook_step_inv)
  have "retired h s'" if "h \<in> live (snd s)" for h
  proof -
    from assms rebind_retires [OF inv that] unmount_retires [OF inv that]
    have "retired h (hook_step appId e s)" by blast
    then show ?thesis unfolding s'_def by (rule hook_run_retired)
  qed
  then have "\<forall>h \<in> live (snd s). h \<notin> live (snd s') \<and>
             hook_step appId (Snapshot h docs) s' = s' \<and>
             hook_step appId (SnapshotError h msg) s' = s'"
    using retired_snapshot_noop by (metis retired_def)
  with hook_inv_at_most_one [OF inv] hook_inv_at_most_one [OF inv'] run_cleanup_clears [OF inv]
  show ?thesis by blast
qed



theorem rebind_teardown_witness:
  "live (snd (hook_run ''app'' [Snapshot 0 [1::nat]] (hook_mount ''app'' (Some ''db'') (Some ''u1'') ''tasks''))) = {0} \<and>
   0 \<notin> live (snd (hook_run ''app'' [Snapshot 0 [2]]
       (hook_step ''app'' (Rebind (Some ''db'') (Some ''u2'') ''tasks'')
          (hook_run ''app'' [Snapshot 0 [1::nat]] (hook_mount ''app'' (Some ''db'') (Some ''u1'') ''tasks'')))))"
  using rebind_teardown [of "Rebind (Some ''db'') (Some ''u2'') ''tasks''" "Some ''db''" "Some ''u2''" "''tasks''"
     "''app''" "[Snapshot 0 [1::nat]]" "Some ''db''" "Some ''u1''" "''tasks''" "[Snapshot 0 [2]]"]
  by (simp add: hook_run_def hook_mount_def subscribe_effect_def run_cleanup_def onNext_def live_def
      mirror0_def io0_def truthy_def Let_def)

subsection \<open>Seeding\<close>

lemma useFirebase_db_first: "useFirebase_reach fb \<Longrightarrow> userId fb \<noteq> None \<Longrightarrow> db fb \<noteq> None"
  by (induction rule: useFirebase_reach.induct) auto

lemma tasks_habits_paths: "collection_path a u ''tasks'' \<noteq> collection_path a' u' ''habits''"
proof
  assume "collection_path a u ''tasks'' = collection_path a' u' ''habits''"
  then have "rev (collection_path a u ''tasks'') = rev (collection_path a' u' ''habits'')"
    by simp
  then show False by (simp add: collection_path_def)
qed

lemma seedingEffect_unauthenticated:
  "\<not> truthy (userId fb) \<Longrightarrow> seedingEffect appId iT iH fb tM hM acc i = i"
  by (simp add: seedingEffect_def)

lemma seedingEffect_addDocs:
  assumes "userId fb = Some uid" and "uid \<noteq> []" and "db fb = Some d"
  shows "addDocs (seedingEffect appId iT iH fb tM hM acc i) =
           addDocs i
           @ (if isAuthReady fb \<and> \<not> loading tM \<and> items tM = []
              then [(collection_path appId uid ''tasks'', iT)] else [])
           @ (if isAuthReady fb \<and> \<not> loading hM \<and> items hM = []
              then [(collection_path appId uid ''habits'', iH)] else [])"
  using assms by (simp add: seedingEffect_def addData_def truthy_def interpolate_def Let_def)

lemma inserted_append:
  "addDocs i' = addDocs i @ ws \<Longrightarrow> inserted p i i' = map snd (filter (\<lambda>w. fst w = p) ws)"
  by (simp add: inserted_def)

text \<open>
  The guard of one run of the seeding effect, in any state \<open>useFirebase\<close> can show. For
  each of the two collections: when the session is ready and has a user, the mirror's
  flag is off and its list is empty, exactly one \<open>addDoc\<close> call is made for the collection
  and it carries the default document; when the mirror's list is not empty, or while its
  flag is on, none is made.
\<close>

lemma seeding_guard:
  fixes fb :: firebase and tasksM habitsM :: "'d mirror" and i :: "'d io"
    and appId :: string and initialTask initialHabit :: 'd and accepted :: bool
  assumes "useFirebase_reach fb"
  defines "i' \<equiv> seedingEffect appId initialTask initialHabit fb tasksM habitsM accepted i"
  shows "(isAuthReady fb \<and> userId fb = Some uid \<and> uid \<noteq> [] \<and> \<not> loading tasksM \<and> items tasksM = []
            \<longrightarrow> inserted (collection_path appId uid ''tasks'') i i' = [initialTask]) \<and>
         (isAuthReady fb \<and> userId fb = Some uid \<and> uid \<noteq> [] \<and> \<not> loading habitsM \<and> items habitsM = []
            \<longrightarrow> inserted (collection_path appId uid ''habits'') i i' = [initialHabit]) \<and>
         (items tasksM \<noteq> [] \<or> loading tasksM
            \<longrightarrow> inserted (collection_path appId uid' ''tasks'') i i' = []) \<and>
         (items habitsM \<noteq> [] \<or> loading habitsM
            \<longrightarrow> inserted (collection_path appId uid' ''habits'') i i' = [])"
proof (cases "truthy (userId fb)")
  case False
  then have "i' = i" unfolding i'_def by (rule seedingEffect_unauthenticated)
  moreover from False have "userId fb = Some uid \<Longrightarrow> uid = []" by (simp add: truthy_def)
  ultimately show ?thesis by (auto simp add: inserted_def)
next
  case True
  then obtain v where v: "userId fb = Some v" "v \<noteq> []"
    by (auto simp add: truthy_def split: option.splits)
  with assms(1) obtain d where "db fb = Some d" using useFirebase_db_first by fastforce
  with v have docs: "addDocs i' =
           addDocs i
           @ ((if isAuthReady fb \<and> \<not> loading tasksM \<and> items tasksM = []
              then [(collection_path appId v ''tasks'', initialTask)] else [])
           @ (if isAuthReady fb \<and> \<not> loading habitsM \<and> items habitsM = []
              then [(collection_path appId v ''habits'', initialHabit)] else []))"
    unfolding i'_def by (simp add: seedingEffect_addDocs)
  note ne = tasks_habits_paths tasks_habits_paths [symmetric]
  have 1: "inserted (collection_path appId uid ''tasks'') i i' = [initialTask]"
    if "isAuthReady fb" "userId fb = Some uid" "\<not> loading tasksM" "items tasksM = []"
    using that v ne by (simp add: inserted_append [OF docs])
  have 2: "inserted (collection_path appId uid ''habits'') i i' = [initialHabit]"
    if "isAuthReady fb" "userId fb = Some uid" "\<not> loading habitsM" "items habitsM = []"
    using that v ne by (simp add: inserted_append [OF docs])
  have 3: "inserted (collection_path appId uid' ''tasks'') i i' = []"
    if "items tasksM \<noteq> [] \<or> loading tasksM"
    using that ne by (auto simp add: inserted_append [OF docs])
  have 4: "inserted (collection_path appId uid' ''habits'') i i' = []"
    if "items habitsM \<noteq> [] \<or> loading habitsM"
    using that ne by (auto simp add: inserted_append [OF docs])
  from 1 2 3 4 show ?thesis by blast
qed

lemma fb_ready_reach: "useFirebase_reach fb_ready"
proof -
  have "useFirebase_reach \<lparr>db = None, userId = None, isAuthReady = False\<rparr>"
    by (rule useFirebase_reach.mounted)
  from useFirebase_reach.setDb [OF this, of "''db''"]
  have "useFirebase_reach \<lparr>db = Some ''db'', userId = None, isAuthReady = False\<rparr>" by simp
  from useFirebase_reach.setUserId [OF this, of "''u1''"]
  have "useFirebase_reach \<lparr>db = Some ''db'', userId = Some ''u1'', isAuthReady = False\<rparr>" by simp
  from useFirebase_reach.setIsAuthReady [OF this]
  show ?thesis by (simp add: fb_ready_def)
qed

lemma seeding_guard_example:
  "useFirebase_reach fb_ready \<and>
   inserted (collection_path ''app'' ''u1'' ''tasks'') io0
     (seedingEffect ''app'' ''initialTask'' ''initialHabit'' fb_ready
        (mirror0\<lparr>loading := False\<rparr>) (mirror0\<lparr>loading := False, items := [''Minum'']\<rparr>) True io0)
     = [''initialTask''] \<and>
   inserted (collection_path ''app'' ''u1'' ''habits'') io0
     (seedingEffect ''app'' ''initialTask'' ''initialHabit'' fb_ready
        (mirror0\<lparr>loading := False\<rparr>) (mirror0\<lparr>loading := False, items := [''Minum'']\<rparr>) True io0)
     = []"
  using seeding_guard [OF fb_ready_reach, where uid = "''u1''" and uid' = "''u1''" and appId = "''app''"
     and tasksM = "mirror0\<lparr>loading := False\<rparr>"
     and habitsM = "mirror0\<lparr>loading := False, items := [''Minum'']\<rparr>"
     and initialTask = "''initialTask''" and initialHabit = "''initialHabit''"
     and accepted = True and i = io0]
     fb_ready_reach
  by (simp add: fb_ready_def mirror0_def)

text \<open>
  C4. Seeding should add one default document to a collection that is empty once it has
  loaded, none to a collection that is not empty, and nothing while the first load is
  under way. The code does not wait for the first load. The hook starts with \<open>loading\<close>
  on, clears it when it is mounted without a database or a user, which is how \<open>App\<close>
  always mounts it, and never sets it again. When the session becomes ready each hook
  has one registration live and has received no snapshot, yet \<open>loading\<close> is off and the
  list is empty, so the effect adds the default task and the default habit. The first
  snapshot of the tasks then shows that the collection was not empty. That snapshot
  changes \<open>tasks.length\<close>, the effect runs again, and the habits, still waiting, are
  seeded a second time.
\<close>

theorem seeding_races_initial_load:
  "loading (mirror0 :: string mirror) \<and>
   \<not> loading (fst (hook_mount ''app'' None None ''tasks'' :: string mirror \<times> string io)) \<and>
   live (snd (awaiting_snapshot ''tasks'')) = {0} \<and>
   \<not> loading (fst (awaiting_snapshot ''tasks'')) \<and>
   items (fst (awaiting_snapshot ''tasks'')) = [] \<and>
   inserted (collection_path ''app'' ''u1'' ''tasks'') io0 first_run = [''initialTask''] \<and>
   inserted (collection_path ''app'' ''u1'' ''habits'') io0 first_run = [''initialHabit''] \<and>
   items (fst (hook_step ''app'' (Snapshot 0 [''Tugas lama'', ''initialTask''])
                 (awaiting_snapshot ''tasks''))) = [''Tugas lama'', ''initialTask''] \<and>
   inserted (collection_path ''app'' ''u1'' ''tasks'') io0 second_run = [''initialTask''] \<and>
   inserted (collection_path ''app'' ''u1'' ''habits'') io0 second_run
     = [''initialHabit'', ''initialHabit'']"
  by (simp add: awaiting_snapshot_def first_run_def second_run_def hook_run_def hook_mount_def
      subscribe_effect_def run_cleanup_def onNext_def live_def mirror0_def io0_def
      seedingEffect_def addData_def inserted_def fb_ready_def truthy_def interpolate_def
      collection_path_def Let_def)

section \<open>Properties of the derived lists\<close>

lemma mset_insert_by: "mset (insert_by cmp x xs) = add_mset x (mset xs)"
  by (induction xs) simp_all

lemma mset_insertion_sort: "mset (insertion_sort cmp xs) = mset xs"
  by (induction xs) (simp_all add: mset_insert_by)

lemma successively_insert_by:
  "successively (\<lambda>a b. cmp a b \<le> 0 \<or> 0 \<le> cmp b a) xs \<Longrightarrow>
   successively (\<lambda>a b. cmp a b \<le> 0 \<or> 0 \<le> cmp b a) (insert_by cmp x xs)"
proof (induction xs)
  case Nil
  then show ?case by simp
next
  case (Cons y ys)
  show ?case
  proof (cases "cmp x y \<le> 0")
    case True
    with Cons.prems show ?thesis by auto
  next
    case False
    from Cons.prems have tl: "successively (\<lambda>a b. cmp a b \<le> 0 \<or> 0 \<le> cmp b a) ys"
      by (auto simp add: successively_Cons)
    then have ih: "successively (\<lambda>a b. cmp a b \<le> 0 \<or> 0 \<le> cmp b a) (insert_by cmp x ys)"
      by (rule Cons.IH)
    have "insert_by cmp x ys \<noteq> []" by (cases ys) simp_all
    moreover have "cmp y (hd (insert_by cmp x ys)) \<le> 0 \<or> 0 \<le> cmp (hd (insert_by cmp x ys)) y"
    proof (cases ys)
      case Nil
      with False show ?thesis by simp
    next
      case (Cons z zs)
      with False Cons.prems show ?thesis by (auto simp add: successively_Cons)
    qed
    ultimately show ?thesis using False ih by (simp add: successively_Cons)
  qed
qed

lemma successively_insertion_sort:
  "successively (\<lambda>a b. cmp a b \<le> 0 \<or> 0 \<le> cmp b a) (insertion_sort cmp xs)"
  by (induction xs) (simp_all add: successively_insert_by)

lemma conforming_insertion_sort: "conforming_sort insertion_sort"
  by (simp add: conforming_sort_def mset_insertion_sort successively_insertion_sort)

lemma conforming_sort_mset: "conforming_sort srt \<Longrightarrow> mset (srt cmp xs) = mset xs"
  by (simp add: conforming_sort_def)

lemma conforming_sort_successively:
  "conforming_sort srt \<Longrightarrow> successively (\<lambda>a b. cmp a b \<le> 0 \<or> 0 \<le> cmp b a) (srt cmp xs)"
  by (simp add: conforming_sort_def)

lemma byCreatedAtDesc_sorted:
  assumes "conforming_sort srt"
  shows "sorted_wrt (\<lambda>a b. createdAt b \<le> createdAt a) (srt byCreatedAtDesc xs)"
proof -
  have "successively (\<lambda>a b. byCreatedAtDesc a b \<le> 0 \<or> 0 \<le> byCreatedAtDesc b a) (srt byCreatedAtDesc xs)"
    using assms by (rule conforming_sort_successively)
  then have "successively (\<lambda>a b. createdAt b \<le> createdAt a) (srt byCreatedAtDesc xs)"
    by (rule successively_mono) (auto simp add: byCreatedAtDesc_def)
  moreover have "transp (\<lambda>a b :: vtask. createdAt b \<le> createdAt a)"
    by (auto intro: transpI)
  ultimately show ?thesis by (simp add: successively_conv_sorted_wrt)
qed

text \<open>
  C5. The pending list holds exactly the tasks that are not completed, the completed list
  exactly those that are; between them they hold every task once. In both, a task never
  stands before one with a larger \<open>createdAt\<close>.
\<close>

theorem pending_completed_lists:
  assumes "conforming_sort srt"
  shows "mset (pendingTasks srt tasks) = mset (filter (\<lambda>t. \<not> vcompleted t) tasks) \<and>
         sorted_wrt (\<lambda>a b. createdAt b \<le> createdAt a) (pendingTasks srt tasks) \<and>
         mset (completedTasks srt tasks) = mset (filter (\<lambda>t. vcompleted t) tasks) \<and>
         sorted_wrt (\<lambda>a b. createdAt b \<le> createdAt a) (completedTasks srt tasks) \<and>
         mset (pendingTasks srt tasks) + mset (completedTasks srt tasks) = mset tasks"
proof -
  have "mset (filter (\<lambda>t. \<not> vcompleted t) tasks) + mset (filter (\<lambda>t. vcompleted t) tasks) = mset tasks"
    by (induction tasks) simp_all
  with assms show ?thesis
    by (simp add: pendingTasks_def completedTasks_def conforming_sort_mset byCreatedAtDesc_sorted)
qed

theorem pending_completed_lists_witness:
  "conforming_sort insertion_sort \<and>
   map vid (pendingTasks insertion_sort [vt ''1'' False 100, vt ''2'' False 200, vt ''3'' True 300, vt ''4'' True 400])
     = [''2'', ''1''] \<and>
   map vid (completedTasks insertion_sort [vt ''1'' False 100, vt ''2'' False 200, vt ''3'' True 300, vt ''4'' True 400])
     = [''4'', ''3'']"
  using pending_completed_lists [OF conforming_insertion_sort,
          of "[vt ''1'' False 100, vt ''2'' False 200, vt ''3'' True 300, vt ''4'' True 400]"]
  by (simp add: conforming_insertion_sort pendingTasks_def completedTasks_def vt_def byCreatedAtDesc_def)

lemma urgentFirst_sorted:
  assumes "conforming_sort srt"
  shows "sorted_wrt (\<lambda>a b. urgent a \<or> \<not> urgent b) (srt urgentFirst xs)"
proof -
  have "successively (\<lambda>a b. urgentFirst a b \<le> 0 \<or> 0 \<le> urgentFirst b a) (srt urgentFirst xs)"
    using assms by (rule conforming_sort_successively)
  then have "successively (\<lambda>a b. urgent a \<or> \<not> urgent b) (srt urgentFirst xs)"
    by (rule successively_mono) (auto simp add: urgentFirst_def urgent_def split: if_splits)
  moreover have "transp (\<lambda>a b. urgent a \<or> \<not> urgent b)"
    by (auto intro: transpI)
  ultimately show ?thesis by (simp add: successively_conv_sorted_wrt)
qed

text \<open>
  C6. The top priorities are at most three tasks, all taken from the tasks that are not
  completed, and no task of another priority stands before one of priority
  "Penting - Mendesak"; nor is such a task cut off while a task of another priority is
  shown. The comparator gives the same answer for every task of the other priorities.
\<close>

theorem top3Priorities_ranking:
  assumes "conforming_sort srt"
  shows "length (top3Priorities srt tasks) \<le> 3 \<and>
         set (top3Priorities srt tasks) \<subseteq> {t. t \<in> set tasks \<and> \<not> completed t} \<and>
         sorted_wrt (\<lambda>a b. urgent a \<or> \<not> urgent b) (top3Priorities srt tasks) \<and>
         ((\<exists>a \<in> set (top3Priorities srt tasks). \<not> urgent a) \<longrightarrow>
            (\<forall>t \<in> set tasks. \<not> completed t \<and> urgent t \<longrightarrow> t \<in> set (top3Priorities srt tasks))) \<and>
         (\<forall>a a' b b'. \<not> urgent a \<and> \<not> urgent a' \<longrightarrow> urgentFirst a b = urgentFirst a' b')"
proof -
  let ?pending = "filter (\<lambda>t. \<not> completed t) tasks"
  let ?full = "srt urgentFirst ?pending"
  have set_full: "set ?full = set ?pending"
    using conforming_sort_mset [OF assms, of urgentFirst ?pending] by (rule mset_eq_setD)
  have sorted_full: "sorted_wrt (\<lambda>a b. urgent a \<or> \<not> urgent b) ?full"
    using assms by (rule urgentFirst_sorted)
  have 1: "length (top3Priorities srt tasks) \<le> 3" by (simp add: top3Priorities_def)
  have 2: "set (top3Priorities srt tasks) \<subseteq> {t. t \<in> set tasks \<and> \<not> completed t}"
    using set_take_subset [of 3 ?full] set_full by (auto simp add: top3Priorities_def)
  have 3: "sorted_wrt (\<lambda>a b. urgent a \<or> \<not> urgent b) (top3Priorities srt tasks)"
    unfolding top3Priorities_def using sorted_full by (rule sorted_wrt_take)
  have split: "\<forall>x \<in> set (take 3 ?full). \<forall>y \<in> set (drop 3 ?full). urgent x \<or> \<not> urgent y"
  proof -
    have "sorted_wrt (\<lambda>a b. urgent a \<or> \<not> urgent b) (take 3 ?full @ drop 3 ?full)"
      using sorted_full by simp
    then show ?thesis unfolding sorted_wrt_append by blast
  qed
  have 4: "t \<in> set (top3Priorities srt tasks)"
    if a: "a \<in> set (top3Priorities srt tasks)" "\<not> urgent a"
      and t: "t \<in> set tasks" "\<not> completed t" "urgent t" for a t
  proof (rule ccontr)
    assume "t \<notin> set (top3Priorities srt tasks)"
    moreover have "set (take 3 ?full) \<union> set (drop 3 ?full) = set ?full"
      by (metis append_take_drop_id set_append)
    moreover from t set_full have "t \<in> set ?full" by simp
    ultimately have "t \<in> set (drop 3 ?full)" unfolding top3Priorities_def by blast
    moreover from a have "a \<in> set (take 3 ?full)" by (simp add: top3Priorities_def)
    ultimately have "urgent a \<or> \<not> urgent t" using split by blast
    with a t show False by simp
  qed
  have 5: "\<forall>a a' b b'. \<not> urgent a \<and> \<not> urgent a' \<longrightarrow> urgentFirst a b = urgentFirst a' b'"
    by (simp add: urgentFirst_def urgent_def)
  from 1 2 3 4 5 show ?thesis by blast
qed

theorem top3Priorities_ranking_witness:
  "conforming_sort insertion_sort \<and>
   map tid (top3Priorities insertion_sort
      [tk ''1'' ''Penting - Non-mendesak'' False, tk ''2'' ''Penting - Mendesak'' True,
       tk ''3'' ''Non-penting - Mendesak'' False, tk ''4'' ''Penting - Mendesak'' False,
       tk ''5'' ''Non-penting - Non-mendesak'' False, tk ''6'' ''Penting - Mendesak'' False])
     = [''4'', ''6'', ''5'']"
  using top3Priorities_ranking [OF conforming_insertion_sort, of
      "[tk ''1'' ''Penting - Non-mendesak'' False, tk ''2'' ''Penting - Mendesak'' True,
       tk ''3'' ''Non-penting - Mendesak'' False, tk ''4'' ''Penting - Mendesak'' False,
       tk ''5'' ''Non-penting - Non-mendesak'' False, tk ''6'' ''Penting - Mendesak'' False]"]
  by (simp add: conforming_insertion_sort top3Priorities_def tk_def urgentFirst_def)

section \<open>Properties of the reflection save flow\<close>

lemma field_setDoc_merge:
  "field (setDoc_merge p payload st) q f =
     (if q = p then (case payload f of Some v \<Rightarrow> Some v | None \<Rightarrow> field st p f) else field st q f)"
  by (simp add: field_def setDoc_merge_def map_add_def split: option.splits)

lemma setDoc_merge_other: "q \<noteq> p \<Longrightarrow> setDoc_merge p payload st q = st q"
  by (simp add: setDoc_merge_def)

lemma save_field:
  "field (stored (handleSaveReflection appId dbi uid now stamp acc content st)) q f =
     (if uid \<noteq> [] \<and> content \<noteq> [] \<and> dbi \<noteq> None \<and> acc \<and>
         q = reflection_path appId uid (toISOString_date now)
      then (if f = ''content'' then Some (FString content)
            else if f = ''updatedAt'' then Some (FTimestamp stamp)
            else field (stored st) q f)
      else field (stored st) q f)"
  by (auto simp add: handleSaveReflection_def Let_def field_setDoc_merge)

lemma save_other_doc:
  "q \<noteq> reflection_path appId uid (toISOString_date now) \<Longrightarrow>
   stored (handleSaveReflection appId dbi uid now stamp acc content st) q = stored st q"
  by (simp add: handleSaveReflection_def Let_def setDoc_merge_other)

text \<open>
  C7, amended. A save with a user id, a database and a content that is not empty, accepted
  by the store, sets \<open>content\<close> and \<open>updatedAt\<close> of that day's document and nothing else:
  every other field of every document is as before, and so is every other document.
  After two such saves on one day the document holds the second content and the second
  timestamp. A save with empty content returns without writing.
\<close>

theorem reflection_save_merge:
  fixes appId uid c1 c2 :: string and dbInstance :: "firestore option" and n1 n2 s1 s2 :: int
    and st :: app_state
  assumes "uid \<noteq> []" and "dbInstance \<noteq> None" and "c1 \<noteq> []" and "c2 \<noteq> []"
    and "toISOString_date n1 = toISOString_date n2"
  defines "p \<equiv> reflection_path appId uid (toISOString_date n1)"
  defines "st1 \<equiv> handleSaveReflection appId dbInstance uid n1 s1 True c1 st"
  defines "st2 \<equiv> handleSaveReflection appId dbInstance uid n2 s2 True c2 st1"
  shows "field (stored st1) p ''content'' = Some (FString c1) \<and>
         field (stored st1) p ''updatedAt'' = Some (FTimestamp s1) \<and>
         field (stored st2) p ''content'' = Some (FString c2) \<and>
         field (stored st2) p ''updatedAt'' = Some (FTimestamp s2) \<and>
         (\<forall>q f. f \<noteq> ''content'' \<and> f \<noteq> ''updatedAt'' \<longrightarrow>
            field (stored st1) q f = field (stored st) q f \<and>
            field (stored st2) q f = field (stored st) q f) \<and>
         (\<forall>q. q \<noteq> p \<longrightarrow> stored st1 q = stored st q \<and> stored st2 q = stored st q) \<and>
         handleSaveReflection appId dbInstance uid n2 s2 True [] st1 = st1"
proof -
  have a: "field (stored st1) p ''content'' = Some (FString c1)"
    and b: "field (stored st1) p ''updatedAt'' = Some (FTimestamp s1)"
    unfolding st1_def p_def using assms(1-3) by (simp_all add: save_field)
  have c: "field (stored st2) p ''content'' = Some (FString c2)"
    and d: "field (stored st2) p ''updatedAt'' = Some (FTimestamp s2)"
    unfolding st2_def p_def using assms(1,2,4,5) by (simp_all add: save_field)
  have e: "field (stored st1) q f = field (stored st) q f \<and>
           field (stored st2) q f = field (stored st) q f"
    if "f \<noteq> ''content''" "f \<noteq> ''updatedAt''" for q f
    unfolding st2_def st1_def using that by (simp add: save_field)
  have f: "stored st1 q = stored st q \<and> stored st2 q = stored st q" if "q \<noteq> p" for q
    unfolding st2_def st1_def using that assms(5) by (simp add: save_other_doc p_def)
  have g: "handleSaveReflection appId dbInstance uid n2 s2 True [] st1 = st1"
    by (simp add: handleSaveReflection_def)
  from a b c d e f g show ?thesis by blast
qed

theorem reflection_save_merge_witness:
  "field (stored (handleSaveReflection ''app'' (Some ''db'') ''u1'' 1793660400000 1793660400007 True ''Y''
            (handleSaveReflection ''app'' (Some ''db'') ''u1'' 1793660400000 1793660400001 True ''X'' state0)))
      (reflection_path ''app'' ''u1'' ''2026-11-02'') ''content'' = Some (FString ''Y'') \<and>
   field (stored (handleSaveReflection ''app'' (Some ''db'') ''u1'' 1793660400000 1793660400007 True ''Y''
            (handleSaveReflection ''app'' (Some ''db'') ''u1'' 1793660400000 1793660400001 True ''X'' state0)))
      (reflection_path ''app'' ''u1'' ''2026-11-02'') ''updatedAt'' = Some (FTimestamp 1793660400007) \<and>
   field (stored (handleSaveReflection ''app'' (Some ''db'') ''u1'' 1793660400000 1793660400007 True ''Y''
            (handleSaveReflection ''app'' (Some ''db'') ''u1'' 1793660400000 1793660400001 True ''X'' state0)))
      (reflection_path ''app'' ''u1'' ''2026-11-02'') ''mood'' = Some (FString ''ok'')"
proof -
  have day: "toISOString_date 1793660400000 = ''2026-11-02''" by code_simp
  have old: "field (stored state0) (reflection_path ''app'' ''u1'' ''2026-11-02'') ''mood'' = Some (FString ''ok'')"
    by (simp add: state0_def field_def)
  from reflection_save_merge [where uid = "''u1''" and dbInstance = "Some ''db''" and ?c1.0 = "''X''"
      and ?c2.0 = "''Y''" and ?n1.0 = 1793660400000 and ?n2.0 = 1793660400000 and appId = "''app''"
      and ?s1.0 = 1793660400001 and ?s2.0 = 1793660400007 and st = state0]
  show ?thesis unfolding day using old by simp
qed

text \<open>
  C7, as stated, fails when the later content is empty: after saving "X" and then the
  empty text, the document still holds "X" and the first timestamp.
\<close>

theorem reflection_empty_save_counterexample:
  "field (stored (handleSaveReflection ''app'' (Some ''db'') ''u1'' 1793660400000 1793660400007 True ''''
            (handleSaveReflection ''app'' (Some ''db'') ''u1'' 1793660400000 1793660400001 True ''X'' state0)))
      (reflection_path ''app'' ''u1'' ''2026-11-02'') ''content'' = Some (FString ''X'') \<and>
   field (stored (handleSaveReflection ''app'' (Some ''db'') ''u1'' 1793660400000 1793660400007 True ''''
            (handleSaveReflection ''app'' (Some ''db'') ''u1'' 1793660400000 1793660400001 True ''X'' state0)))
      (reflection_path ''app'' ''u1'' ''2026-11-02'') ''updatedAt'' = Some (FTimestamp 1793660400001)"
proof -
  have day: "toISOString_date 1793660400000 = ''2026-11-02''" by code_simp
  show ?thesis by (simp add: save_field day)
qed

end
